theory Spec2Isabelle
  imports Main
begin

section \<open>Values that cross the boundary of \<open>useLogDownloader\<close>\<close>

text \<open>
  A JavaScript \<open>Error\<close> object, as far as the hook reads it: its \<open>name\<close> and its
  \<open>message\<close>. \<open>new Error("Incomplete download")\<close> is \<open>JsError ''Error'' ''Incomplete download''\<close>.
\<close>

datatype js_error = JsError (err_name: string) (err_message: string)

text \<open>The two members of \<open>SentryBreadcrumb\<close> the hook uses.\<close>

datatype SentryBreadcrumb = SentryBreadcrumb_HTTP | SentryBreadcrumb_Error

text \<open>
  The hook's parameter object. \<open>downloadSizeLimit\<close> is optional; \<open>LogTypes\<close> is declared
  in \<open>constants/enums\<close>, outside the files at hand, and stays a type parameter.
\<close>

record 'lt UseLogDownloader =
  downloadSizeLimit :: "int option"
  logType :: 'lt
  url :: string

text \<open>
  What the hook imports and only reads: the two warning texts of \<open>constants/errors\<close>, the
  default limit of \<open>constants/logs\<close>, \<open>isProduction()\<close> of \<open>utils/environmentVariables\<close>
  and \<open>getBytesAsString\<close> of \<open>utils/string\<close>. None of them is defined in the files at
  hand, so each is a parameter of the model.
\<close>

record ambient =
  LOG_FILE_DOWNLOAD_TOO_LARGE_WARNING :: string
  LOG_LINE_TOO_LARGE_WARNING :: string
  LOG_FILE_SIZE_LIMIT :: int
  isProduction :: bool
  getBytesAsString :: "int \<Rightarrow> string"

text \<open>
  The objects handed to \<open>sendEvent\<close>. The three shapes are told apart by their \<open>name\<close>
  field; the other fields are kept in the source's (alphabetical) order.
\<close>

datatype 'lt analytics_event =
    LogDownloadIncomplete (ev_downloaded: int) (ev_duration: int) (ev_reason: string)
  | LogDownloadFailed int int 'lt
  | LogDownloaded int int 'lt

fun event_name :: "'lt analytics_event \<Rightarrow> string" where
  "event_name (LogDownloadIncomplete downloaded duration reason) = ''Log Download Incomplete''"
| "event_name (LogDownloadFailed duration fileSize type) = ''Log Download Failed''"
| "event_name (LogDownloaded duration fileSize type) = ''Log Downloaded''"

text \<open>The \<open>metadata\<close> objects of the two \<open>reportError\<close> calls that pass options.\<close>

datatype report_metadata =
    IncompleteDownloadError js_error string
  | TrimmedLines int string

record report_options =
  message :: string
  metadata :: report_metadata
  name :: string

record toast_options =
  shouldTimeout :: bool
  title :: string

text \<open>The data objects of the three \<open>leaveBreadcrumb\<close> calls.\<close>

datatype breadcrumb_data =
    CrumbUrl string
  | CrumbError int js_error int string
  | CrumbDone string int string

text \<open>
  Every call the hook makes to a collaborator is recorded, in order:
  \<open>leaveBreadcrumb(message, data, type)\<close>, \<open>reportError(err, options).warning()\<close>,
  \<open>dispatchToast.warning(message, closable, options)\<close> and \<open>sendEvent(event)\<close>.
\<close>

datatype 'lt effect =
    LeaveBreadcrumb string breadcrumb_data SentryBreadcrumb
  | ReportErrorWarning js_error "report_options option"
  | ToastWarning string bool toast_options
  | SendEvent "'lt analytics_event"

section \<open>The state of one hook instance\<close>

text \<open>
  One run of the effect body: the variables its closures capture (\<open>url\<close>, \<open>logType\<close>,
  \<open>timeStart\<close>), whether the signal of the \<open>AbortController\<close> it creates is aborted,
  whether it called \<open>fetchLogFile\<close>, whether that call was handed the controller (the
  \<open>abortController\<close> option is \<open>undefined\<close> otherwise), the size limit in force, and
  whether the promise of \<open>fetchLogFile\<close> has settled.
\<close>

record 'lt effect_run =
  run_url :: string
  run_logType :: 'lt
  timeStart :: int
  aborted :: bool
  fetching :: bool
  abortController :: bool
  run_downloadSizeLimit :: int
  settled :: bool

text \<open>
  Modelled from the spec: \<open>useStateRef\<close> (\<open>hooks/useStateRef\<close>, not among the sources)
  is the state-plus-ref pattern of the design notes: one cell, and \<open>getFileSize()\<close> reads
  the value last passed to \<open>setFileSize\<close>, also inside a callback created earlier.

  The record holds the four \<open>useState\<close>/\<open>useStateRef\<close> cells (the value last passed to
  each setter, which React renders while the component is mounted), the effect runs so
  far, and the calls made to collaborators, each tagged with the index of the effect run
  whose closure made it.
\<close>

record 'lt hook =
  data :: "string list option"
  error :: "string option"
  fileSize :: int
  isLoading :: bool
  runs :: "'lt effect_run list"
  effects :: "(nat \<times> 'lt effect) list"

definition initial :: "'lt hook" where
  "initial = \<lparr>data = None, error = None, fileSize = 0, isLoading = False, runs = [], effects = []\<rparr>"

definition emit :: "nat \<Rightarrow> 'lt effect \<Rightarrow> 'lt hook \<Rightarrow> 'lt hook" where
  "emit i e s = s\<lparr>effects := effects s @ [(i, e)]\<rparr>"

section \<open>The callbacks handed to \<open>fetchLogFile\<close>\<close>

text \<open>
  \<open>onIncompleteDownload(reason, incompleteDownloadError)\<close> of effect run \<open>i\<close>, called
  when \<open>Date.now()\<close> is \<open>now\<close>.
\<close>

definition onIncompleteDownload ::
  "ambient \<Rightarrow> nat \<Rightarrow> string \<Rightarrow> js_error \<Rightarrow> int \<Rightarrow> 'lt hook \<Rightarrow> 'lt hook" where
  "onIncompleteDownload im i reason incompleteDownloadError now s =
     (let r = runs s ! i;
          s1 = emit i (ReportErrorWarning (JsError ''Error'' ''Incomplete download'')
                 (Some \<lparr>message = reason,
                        metadata = IncompleteDownloadError incompleteDownloadError (run_url r),
                        name = ''Log download incomplete''\<rparr>)) s;
          s2 = emit i (ToastWarning (LOG_FILE_DOWNLOAD_TOO_LARGE_WARNING im) True
                 \<lparr>shouldTimeout = False, title = ''Log not fully downloaded''\<rparr>) s1;
          s3 = emit i (SendEvent (LogDownloadIncomplete (fileSize s2) (now - timeStart r) reason)) s2
      in s3)"

text \<open>\<open>onProgress(progress)\<close>: \<open>setFileSize(getFileSize() + progress)\<close>.\<close>

definition onProgress :: "int \<Rightarrow> 'lt hook \<Rightarrow> 'lt hook" where
  "onProgress progress s = s\<lparr>fileSize := fileSize s + progress\<rparr>"

section \<open>The promise chain\<close>

text \<open>
  \<open>logs[logs.length - 1]\<close>: reading a JavaScript array at an index that is not one of
  its own gives \<open>undefined\<close>, here \<open>None\<close>. \<open>logs.pop()\<close> removes the last element and
  leaves an empty array empty.
\<close>

definition js_index :: "'a list \<Rightarrow> int \<Rightarrow> 'a option" where
  "js_index xs k = (if 0 \<le> k \<and> k < int (length xs) then Some (xs ! nat k) else None)"

definition js_pop :: "'a list \<Rightarrow> 'a list" where
  "js_pop xs = butlast xs"

definition remove_last_empty :: "string list \<Rightarrow> string list" where
  "remove_last_empty logs =
     (if js_index logs (int (length logs) - 1) = Some '''' then js_pop logs else logs)"

text \<open>
  The \<open>.then\<close> callback, given \<open>{ result: logs, trimmedLines }\<close>. A number is truthy
  when it is not zero.
\<close>

definition then_handler ::
  "ambient \<Rightarrow> nat \<Rightarrow> string list \<Rightarrow> int \<Rightarrow> int \<Rightarrow> 'lt hook \<Rightarrow> 'lt hook" where
  "then_handler im i logs trimmedLines now s =
     (let r = runs s ! i;
          s1 = s\<lparr>data := Some (remove_last_empty logs)\<rparr>
      in if trimmedLines \<noteq> 0 then
           (let s2 = emit i (SendEvent (LogDownloadIncomplete (fileSize s1) (now - timeStart r)
                        ''Log line size limit exceeded'')) s1;
                s3 = emit i (ReportErrorWarning (JsError ''Error'' ''Incomplete download'')
                        (Some \<lparr>message = ''Log line size limit exceeded'',
                               metadata = TrimmedLines trimmedLines (run_url r),
                               name = ''Log download incomplete''\<rparr>)) s2;
                s4 = emit i (ToastWarning (LOG_LINE_TOO_LARGE_WARNING im) True
                        \<lparr>shouldTimeout = False, title = ''Log not fully downloaded''\<rparr>) s3
            in s4)
         else s1)"

text \<open>The \<open>.catch\<close> callback, given the rejection \<open>err\<close>.\<close>

definition catch_handler :: "nat \<Rightarrow> js_error \<Rightarrow> int \<Rightarrow> 'lt hook \<Rightarrow> 'lt hook" where
  "catch_handler i err now s =
     (let r = runs s ! i;
          s1 = emit i (LeaveBreadcrumb ''useLogDownloader''
                 (CrumbError (now - timeStart r) err (fileSize s) (run_url r))
                 SentryBreadcrumb_Error) s;
          s2 = emit i (ReportErrorWarning err None) s1;
          s3 = s2\<lparr>error := Some (err_message err)\<rparr>;
          s4 = emit i (SendEvent (LogDownloadFailed (now - timeStart r) (fileSize s3)
                 (run_logType r))) s3
      in s4)"

text \<open>The \<open>.finally\<close> callback.\<close>

definition finally_handler :: "ambient \<Rightarrow> nat \<Rightarrow> int \<Rightarrow> 'lt hook \<Rightarrow> 'lt hook" where
  "finally_handler im i now s =
     (let r = runs s ! i;
          s1 = emit i (LeaveBreadcrumb ''useLogDownloader''
                 (CrumbDone (getBytesAsString im (fileSize s)) (now - timeStart r) (run_url r))
                 SentryBreadcrumb_HTTP) s;
          s2 = emit i (SendEvent (LogDownloaded (now - timeStart r) (fileSize s1)
                 (run_logType r))) s1;
          s3 = s2\<lparr>isLoading := False\<rparr>
      in s3)"

text \<open>
  How the promise of \<open>fetchLogFile\<close> settles: fulfilled with \<open>{ result, trimmedLines }\<close>
  or rejected with an error. \<open>.then(f).catch(g).finally(h)\<close> runs \<open>f\<close> then \<open>h\<close> on
  fulfilment and \<open>g\<close> then \<open>h\<close> on rejection; the promise is then settled for good.
\<close>

datatype outcome = Resolved "string list" int | Rejected js_error

definition settle :: "ambient \<Rightarrow> nat \<Rightarrow> outcome \<Rightarrow> int \<Rightarrow> 'lt hook \<Rightarrow> 'lt hook" where
  "settle im i out now s =
     (let s1 = (case out of
                  Resolved logs trimmedLines \<Rightarrow> then_handler im i logs trimmedLines now s
                | Rejected err \<Rightarrow> catch_handler i err now s);
          s2 = finally_handler im i now s1
      in s2\<lparr>runs := (runs s2)[i := (runs s2 ! i)\<lparr>settled := True\<rparr>]\<rparr>)"

section \<open>The effect and its cleanup\<close>

text \<open>
  The body of \<open>useEffect\<close>, run when \<open>Date.now()\<close> is \<open>now\<close> with the parameters of
  the current render. A string is truthy when it is not empty. The default of
  \<open>downloadSizeLimit\<close> is \<open>LOG_FILE_SIZE_LIMIT\<close>.
\<close>

definition effect_body :: "ambient \<Rightarrow> 'lt UseLogDownloader \<Rightarrow> int \<Rightarrow> 'lt hook \<Rightarrow> 'lt hook" where
  "effect_body im p now s =
     (let i = length (runs s);
          s1 = emit i (LeaveBreadcrumb ''useLogDownloader'' (CrumbUrl (url p))
                 SentryBreadcrumb_HTTP) s;
          r = \<lparr>run_url = url p, run_logType = logType p, timeStart = now, aborted = False,
               fetching = False, abortController = False,
               run_downloadSizeLimit =
                 (case downloadSizeLimit p of None \<Rightarrow> LOG_FILE_SIZE_LIMIT im | Some l \<Rightarrow> l),
               settled = False\<rparr>
      in if url p \<noteq> '''' then
           s1\<lparr>isLoading := True,
              runs := runs s1 @ [r\<lparr>fetching := True, abortController := isProduction im\<rparr>]\<rparr>
         else s1\<lparr>runs := runs s1 @ [r]\<rparr>)"

text \<open>
  The function the effect returns: \<open>abortController.abort()\<close> on the controller of the
  run that returned it, which is the latest run.
\<close>

definition cleanup :: "'lt hook \<Rightarrow> 'lt hook" where
  "cleanup s =
     (if runs s = [] then s
      else s\<lparr>runs := (runs s)[length (runs s) - 1 := (last (runs s))\<lparr>aborted := True\<rparr>]\<rparr>)"

section \<open>What can happen to a hook instance\<close>

text \<open>
  Modelled from the spec: \<open>fetchLogFile\<close> (\<open>utils/fetchLogFile\<close>, not among the
  sources) returns a promise; while it streams it calls \<open>onProgress\<close> with the byte count
  of each chunk and \<open>onIncompleteDownload\<close> when a limit stops it; the promise is
  fulfilled with \<open>{ result, trimmedLines }\<close> or rejected, on a transport failure and on
  cancellation. The model fixes none of its choices: every call and every settlement is
  an event, and a promise settles at most once.

  React runs the effect on mount and whenever \<open>url\<close> has changed, after the cleanup of
  the previous run; it runs the cleanup alone on unmount. Callbacks and settlement exist
  only for a run that called \<open>fetchLogFile\<close>. Each callback reads \<open>Date.now()\<close> as the
  time \<open>now\<close> of its event.
\<close>

datatype 'lt event =
    Effect "'lt UseLogDownloader" int
  | Cleanup
  | Progress nat int
  | Incomplete nat string js_error int
  | Settle nat outcome int

fun step :: "ambient \<Rightarrow> 'lt hook \<Rightarrow> 'lt event \<Rightarrow> 'lt hook" where
  "step im s (Effect p now) = effect_body im p now (cleanup s)"
| "step im s Cleanup = cleanup s"
| "step im s (Progress i progress) =
     (if i < length (runs s) \<and> fetching (runs s ! i) then onProgress progress s else s)"
| "step im s (Incomplete i reason err now) =
     (if i < length (runs s) \<and> fetching (runs s ! i)
      then onIncompleteDownload im i reason err now s else s)"
| "step im s (Settle i out now) =
     (if i < length (runs s) \<and> fetching (runs s ! i) \<and> \<not> settled (runs s ! i)
      then settle im i out now s else s)"

definition run_events :: "ambient \<Rightarrow> 'lt event list \<Rightarrow> 'lt hook" where
  "run_events im evs = foldl (step im) initial evs"

section \<open>Notions the properties are stated with\<close>

text \<open>
  A run is cancelled when \<open>fetchLogFile\<close> holds its controller and the controller's signal
  is aborted. An attempt is in flight when \<open>fetchLogFile\<close> was called, its promise has not
  settled, and it has not been cancelled.
\<close>

definition cancelled :: "'lt effect_run \<Rightarrow> bool" where
  "cancelled r = (abortController r \<and> aborted r)"

definition in_flight :: "'lt effect_run \<Rightarrow> bool" where
  "in_flight r = (fetching r \<and> \<not> settled r \<and> \<not> cancelled r)"

text \<open>A run holds its controller exactly when it called \<open>fetchLogFile\<close> in production.\<close>

definition wired :: "ambient \<Rightarrow> 'lt effect_run \<Rightarrow> bool" where
  "wired im r = (abortController r = (fetching r \<and> isProduction im))"

fun is_breadcrumb :: "'lt effect \<Rightarrow> bool" where
  "is_breadcrumb (LeaveBreadcrumb m d t) = True"
| "is_breadcrumb e = False"

fun is_log_downloaded :: "'lt effect \<Rightarrow> bool" where
  "is_log_downloaded (SendEvent (LogDownloaded d n t)) = True"
| "is_log_downloaded e = False"

text \<open>The calls that effect run \<open>i\<close> has made so far, in order.\<close>

definition effects_of :: "nat \<Rightarrow> 'lt hook \<Rightarrow> 'lt effect list" where
  "effects_of i s = map snd (filter (\<lambda>t. fst t = i) (effects s))"

text \<open>Sample surroundings and inputs, for evaluating the hook on concrete traces.\<close>

definition development :: ambient where
  "development =
     \<lparr>LOG_FILE_DOWNLOAD_TOO_LARGE_WARNING = ''file too large'',
      LOG_LINE_TOO_LARGE_WARNING = ''line too large'',
      LOG_FILE_SIZE_LIMIT = 1000, isProduction = False,
      getBytesAsString = (\<lambda>n. if n = 0 then ''0 Bytes'' else ''some Bytes'')\<rparr>"

definition production :: ambient where
  "production = development\<lparr>isProduction := True\<rparr>"

definition log_a :: "unit UseLogDownloader" where
  "log_a = \<lparr>downloadSizeLimit = None, logType = (), url = ''/a''\<rparr>"

definition log_b :: "unit UseLogDownloader" where
  "log_b = \<lparr>downloadSizeLimit = None, logType = (), url = ''/b''\<rparr>"

definition no_log :: "unit UseLogDownloader" where
  "no_log = \<lparr>downloadSizeLimit = None, logType = (), url = []\<rparr>"

definition abort_error :: js_error where
  "abort_error = JsError ''AbortError'' ''The user aborted a request.''"

definition network_error :: js_error where
  "network_error = JsError ''TypeError'' ''Failed to fetch''"

text \<open>The names of the analytics events among a list of recorded calls, in order.\<close>

fun analytics_of :: "'lt effect \<Rightarrow> 'lt analytics_event option" where
  "analytics_of (SendEvent ev) = Some ev"
| "analytics_of e = None"

definition sent_names :: "(nat \<times> 'lt effect) list \<Rightarrow> string list" where
  "sent_names es = map event_name (List.map_filter (\<lambda>t. analytics_of (snd t)) es)"

text \<open>The URLs the effect was run with along a trace, in order.\<close>

fun effect_urls :: "'lt event list \<Rightarrow> string list" where
  "effect_urls [] = []"
| "effect_urls (Effect p now # evs) = url p # effect_urls evs"
| "effect_urls (e # evs) = effect_urls evs"

text \<open>
  How many \<open>Log Downloaded\<close> events effect run \<open>i\<close> has sent, and the invariant that
  ties the number to the settlement of its promise.
\<close>

definition completed_count :: "nat \<Rightarrow> 'lt hook \<Rightarrow> nat" where
  "completed_count i s = length (filter is_log_downloaded (effects_of i s))"

definition counted :: "'lt hook \<Rightarrow> nat \<Rightarrow> bool" where
  "counted s i =
     (completed_count i s = (if i < length (runs s) \<and> settled (runs s ! i) then 1 else 0))"

section \<open>\<open>initializeSentry\<close>\<close>

text \<open>
  \<open>init\<close> of \<open>@sentry/react\<close> and the three readers of \<open>utils/environmentVariables\<close>
  are outside the files at hand; each may return or throw, and a thrown value is \<open>Inl\<close>.
  The argument object of \<open>init\<close> is evaluated field by field, in the order written, inside
  the \<open>try\<close> block.
\<close>

record sentry_options =
  debug :: bool
  dsn :: string
  environment :: string
  normalizeDepth :: nat

record 'x sentry_imports =
  sentry_isProduction :: "'x + bool"
  getSentryDSN :: "'x + string"
  getReleaseStage :: "'x + string option"
  init :: "sentry_options \<Rightarrow> 'x + unit"

definition and_then :: "'x + 'a \<Rightarrow> ('a \<Rightarrow> 'x + 'b) \<Rightarrow> 'x + 'b" where
  "and_then m f = (case m of Inl e \<Rightarrow> Inl e | Inr v \<Rightarrow> f v)"

text \<open>\<open>getReleaseStage() || "development"\<close>: \<open>undefined\<close> and the empty string are falsy.\<close>

definition or_development :: "string option \<Rightarrow> string" where
  "or_development stage =
     (case stage of None \<Rightarrow> ''development''
      | Some st \<Rightarrow> if st = [] then ''development'' else st)"

definition try_block :: "'x sentry_imports \<Rightarrow> 'x + unit" where
  "try_block d =
     and_then (sentry_isProduction d) (\<lambda>prod.
     and_then (getSentryDSN d) (\<lambda>sentryDSN.
     and_then (getReleaseStage d) (\<lambda>stage.
       init d \<lparr>debug = \<not> prod, dsn = sentryDSN, environment = or_development stage,
               normalizeDepth = 5\<rparr>)))"

text \<open>\<open>console.error(message, e)\<close> appends one entry to the console and returns.\<close>

definition console_error :: "string \<Rightarrow> 'x \<Rightarrow> ('x + unit) \<times> (string \<times> 'x) list" where
  "console_error msg e = (Inr (), [(msg, e)])"

text \<open>
  The result of \<open>initializeSentry\<close> is how the call completes (\<open>Inr ()\<close>: it returns,
  \<open>Inl e\<close>: \<open>e\<close> reaches the caller) and what it wrote to the console.
\<close>

definition initializeSentry :: "'x sentry_imports \<Rightarrow> ('x + unit) \<times> (string \<times> 'x) list" where
  "initializeSentry d =
     (case try_block d of
        Inr u \<Rightarrow> (Inr (), [])
      | Inl e \<Rightarrow> console_error ''Failed to initialize Sentry'' e)"

text \<open>A sample in which \<open>init\<close> throws.\<close>

definition sentry_init_throws :: "string sentry_imports" where
  "sentry_init_throws =
     \<lparr>sentry_isProduction = Inr True, getSentryDSN = Inr ''https://dsn'',
      getReleaseStage = Inr None, init = (\<lambda>opts. Inl ''invalid dsn'')\<rparr>"

section \<open>Each operation as one update of the state\<close>

lemma emit_fields [simp]:
  "data (emit i e s) = data s"
  "error (emit i e s) = error s"
  "fileSize (emit i e s) = fileSize s"
  "isLoading (emit i e s) = isLoading s"
  "runs (emit i e s) = runs s"
  "effects (emit i e s) = effects s @ [(i, e)]"
  by (simp_all add: emit_def)

lemma cleanup_fields [simp]:
  "data (cleanup s) = data s"
  "error (cleanup s) = error s"
  "fileSize (cleanup s) = fileSize s"
  "isLoading (cleanup s) = isLoading s"
  "effects (cleanup s) = effects s"
  "length (runs (cleanup s)) = length (runs s)"
  by (simp_all add: cleanup_def)

lemma cleanup_nth:
  "i < length (runs s) \<Longrightarrow>
   runs (cleanup s) ! i =
     (if Suc i = length (runs s) then (runs s ! i)\<lparr>aborted := True\<rparr> else runs s ! i)"
  by (auto simp: cleanup_def nth_list_update last_conv_nth)

lemma settle_rejected:
  "settle im i (Rejected err) now s =
     s\<lparr>error := Some (err_message err), isLoading := False,
       runs := (runs s)[i := (runs s ! i)\<lparr>settled := True\<rparr>],
       effects := effects s @
         [(i, LeaveBreadcrumb ''useLogDownloader''
                (CrumbError (now - timeStart (runs s ! i)) err (fileSize s) (run_url (runs s ! i)))
                SentryBreadcrumb_Error),
          (i, ReportErrorWarning err None),
          (i, SendEvent (LogDownloadFailed (now - timeStart (runs s ! i)) (fileSize s)
                (run_logType (runs s ! i)))),
          (i, LeaveBreadcrumb ''useLogDownloader''
                (CrumbDone (getBytesAsString im (fileSize s)) (now - timeStart (runs s ! i))
                   (run_url (runs s ! i)))
                SentryBreadcrumb_HTTP),
          (i, SendEvent (LogDownloaded (now - timeStart (runs s ! i)) (fileSize s)
                (run_logType (runs s ! i))))]\<rparr>"
  by (simp add: settle_def catch_handler_def finally_handler_def Let_def emit_def)

lemma settle_resolved:
  "settle im i (Resolved logs trimmedLines) now s =
     s\<lparr>data := Some (remove_last_empty logs), isLoading := False,
       runs := (runs s)[i := (runs s ! i)\<lparr>settled := True\<rparr>],
       effects := effects s @
         (if trimmedLines \<noteq> 0 then
            [(i, SendEvent (LogDownloadIncomplete (fileSize s) (now - timeStart (runs s ! i))
                   ''Log line size limit exceeded'')),
             (i, ReportErrorWarning (JsError ''Error'' ''Incomplete download'')
                   (Some \<lparr>message = ''Log line size limit exceeded'',
                          metadata = TrimmedLines trimmedLines (run_url (runs s ! i)),
                          name = ''Log download incomplete''\<rparr>)),
             (i, ToastWarning (LOG_LINE_TOO_LARGE_WARNING im) True
                   \<lparr>shouldTimeout = False, title = ''Log not fully downloaded''\<rparr>)]
          else []) @
         [(i, LeaveBreadcrumb ''useLogDownloader''
                (CrumbDone (getBytesAsString im (fileSize s)) (now - timeStart (runs s ! i))
                   (run_url (runs s ! i)))
                SentryBreadcrumb_HTTP),
          (i, SendEvent (LogDownloaded (now - timeStart (runs s ! i)) (fileSize s)
                (run_logType (runs s ! i))))]\<rparr>"
  by (simp add: settle_def then_handler_def finally_handler_def Let_def emit_def)

lemma onIncompleteDownload_eq:
  "onIncompleteDownload im i reason err now s =
     s\<lparr>effects := effects s @
         [(i, ReportErrorWarning (JsError ''Error'' ''Incomplete download'')
                (Some \<lparr>message = reason,
                       metadata = IncompleteDownloadError err (run_url (runs s ! i)),
                       name = ''Log download incomplete''\<rparr>)),
          (i, ToastWarning (LOG_FILE_DOWNLOAD_TOO_LARGE_WARNING im) True
                \<lparr>shouldTimeout = False, title = ''Log not fully downloaded''\<rparr>),
          (i, SendEvent (LogDownloadIncomplete (fileSize s) (now - timeStart (runs s ! i)) reason))]\<rparr>"
  by (simp add: onIncompleteDownload_def Let_def emit_def)

lemma effect_body_eq:
  "effect_body im p now s =
     s\<lparr>isLoading := (url p \<noteq> [] \<or> isLoading s),
       runs := runs s @
         [\<lparr>run_url = url p, run_logType = logType p, timeStart = now, aborted = False,
           fetching = (url p \<noteq> []), abortController = (url p \<noteq> [] \<and> isProduction im),
           run_downloadSizeLimit =
             (case downloadSizeLimit p of None \<Rightarrow> LOG_FILE_SIZE_LIMIT im | Some l \<Rightarrow> l),
           settled = False\<rparr>],
       effects := effects s @
         [(length (runs s), LeaveBreadcrumb ''useLogDownloader'' (CrumbUrl (url p))
             SentryBreadcrumb_HTTP)]\<rparr>"
  by (simp add: effect_body_def Let_def emit_def)

lemma run_events_snoc: "run_events im (evs @ [e]) = step im (run_events im evs) e"
  by (simp add: run_events_def)

lemma run_events_Nil: "run_events im [] = initial"
  by (simp add: run_events_def)

section \<open>Invariants of every trace\<close>

lemma cleanup_runs:
  "runs (cleanup s) =
     (if runs s = [] then [] else butlast (runs s) @ [(last (runs s))\<lparr>aborted := True\<rparr>])"
proof (cases "runs s" rule: rev_cases)
  case Nil
  then show ?thesis by (simp add: cleanup_def)
next
  case (snoc ys y)
  then show ?thesis by (simp add: cleanup_def)
qed

lemma step_wired:
  assumes "list_all (wired im) (runs s)"
  shows "list_all (wired im) (runs (step im s e))"
proof (cases e)
  case (Effect p now)
  have "list_all (wired im) (runs (cleanup s))"
    using assms by (cases "runs s" rule: rev_cases) (simp_all add: cleanup_runs wired_def)
  then show ?thesis using Effect by (simp add: effect_body_eq wired_def)
next
  case Cleanup
  show ?thesis using assms Cleanup
    by (cases "runs s" rule: rev_cases) (simp_all add: cleanup_runs wired_def)
next
  case (Progress i n)
  then show ?thesis using assms by (simp add: onProgress_def)
next
  case (Incomplete i reason err now)
  then show ?thesis using assms by (simp add: onIncompleteDownload_eq)
next
  case (Settle i out now)
  show ?thesis
  proof (cases "i < length (runs s) \<and> fetching (runs s ! i) \<and> \<not> settled (runs s ! i)")
    case True
    then have "wired im (runs s ! i)" using assms by (simp add: list_all_length)
    then have "wired im ((runs s ! i)\<lparr>settled := True\<rparr>)" by (simp add: wired_def)
    then have "list_all (wired im) ((runs s)[i := (runs s ! i)\<lparr>settled := True\<rparr>])"
      using assms True by (auto simp: list_all_length nth_list_update)
    then show ?thesis using Settle True
      by (cases out) (simp_all add: settle_rejected settle_resolved)
  next
    case False
    then show ?thesis using Settle assms by auto
  qed
qed

lemma step_superseded_aborted:
  assumes "list_all aborted (butlast (runs s))"
  shows "list_all aborted (butlast (runs (step im s e)))"
proof (cases e)
  case (Effect p now)
  have "list_all aborted (runs (cleanup s))"
    using assms by (cases "runs s" rule: rev_cases) (simp_all add: cleanup_runs)
  then show ?thesis using Effect by (simp add: effect_body_eq)
next
  case Cleanup
  show ?thesis using assms Cleanup
    by (cases "runs s" rule: rev_cases) (simp_all add: cleanup_runs)
next
  case (Progress i n)
  then show ?thesis using assms by (simp add: onProgress_def)
next
  case (Incomplete i reason err now)
  then show ?thesis using assms by (simp add: onIncompleteDownload_eq)
next
  case (Settle i out now)
  show ?thesis
  proof (cases "i < length (runs s) \<and> fetching (runs s ! i) \<and> \<not> settled (runs s ! i)")
    case True
    have "list_all aborted (butlast ((runs s)[i := (runs s ! i)\<lparr>settled := True\<rparr>]))"
      using assms True by (auto simp: list_all_length nth_butlast nth_list_update)
    then show ?thesis using Settle True
      by (cases out) (simp_all add: settle_rejected settle_resolved)
  next
    case False
    then show ?thesis using Settle assms by auto
  qed
qed

lemma cleanup_all_aborted:
  "list_all aborted (butlast (runs s)) \<Longrightarrow> list_all aborted (runs (cleanup s))"
  by (cases "runs s" rule: rev_cases) (simp_all add: cleanup_runs)

lemma reachable_wired: "list_all (wired im) (runs (run_events im evs))"
  by (induction evs rule: rev_induct)
     (simp_all add: run_events_Nil initial_def run_events_snoc step_wired)

lemma reachable_superseded_aborted: "list_all aborted (butlast (runs (run_events im evs)))"
  by (induction evs rule: rev_induct)
     (simp_all add: run_events_Nil initial_def run_events_snoc step_superseded_aborted)

lemma in_flight_not_aborted:
  "isProduction im \<Longrightarrow> wired im r \<Longrightarrow> in_flight r \<Longrightarrow> \<not> aborted r"
  by (auto simp: wired_def in_flight_def cancelled_def)

lemma filter_only_last:
  assumes "list_all (\<lambda>x. \<not> P x) (butlast xs)"
  shows "length (filter P xs) \<le> 1"
proof (cases xs rule: rev_cases)
  case Nil
  then show ?thesis by simp
next
  case (snoc ys y)
  then have "filter P ys = []" using assms by (simp add: list_all_iff filter_empty_conv)
  then show ?thesis using snoc by simp
qed

section \<open>The calls already made are never withdrawn\<close>

lemma effects_step: "\<exists>later. effects (step im s e) = effects s @ later"
proof (cases e)
  case (Effect p now)
  then show ?thesis by (simp add: effect_body_eq)
next
  case Cleanup
  then show ?thesis by simp
next
  case (Progress i n)
  then show ?thesis by (simp add: onProgress_def)
next
  case (Incomplete i reason err now)
  then show ?thesis by (simp add: onIncompleteDownload_eq)
next
  case (Settle i out now)
  then show ?thesis by (cases out) (simp_all add: settle_rejected settle_resolved)
qed

lemma effects_steps: "\<exists>later. effects (foldl (step im) s evs) = effects s @ later"
proof (induction evs arbitrary: s)
  case Nil
  show ?case by simp
next
  case (Cons e evs)
  obtain l1 where l1: "effects (step im s e) = effects s @ l1"
    using effects_step by blast
  obtain l2 where "effects (foldl (step im) (step im s e) evs) = effects (step im s e) @ l2"
    using Cons.IH by blast
  then show ?case using l1 by simp
qed

section \<open>Reading the analytics events off the recorded calls\<close>

lemma sent_names_simps [simp]:
  "sent_names [] = []"
  "sent_names ((i, SendEvent ev) # es) = event_name ev # sent_names es"
  "sent_names ((i, LeaveBreadcrumb m d t) # es) = sent_names es"
  "sent_names ((i, ReportErrorWarning e opts) # es) = sent_names es"
  "sent_names ((i, ToastWarning txt c o2) # es) = sent_names es"
  by (simp_all add: sent_names_def)

lemma remove_last_empty_eq:
  "remove_last_empty logs = (if logs \<noteq> [] \<and> last logs = [] then butlast logs else logs)"
  by (cases logs rule: rev_cases) (simp_all add: remove_last_empty_def js_index_def js_pop_def)

section \<open>Counting the final event\<close>

lemma cleanup_settled:
  "i < length (runs s) \<Longrightarrow> settled (runs (cleanup s) ! i) = settled (runs s ! i)"
  by (simp add: cleanup_nth)

lemma completed_count_cleanup [simp]: "completed_count i (cleanup s) = completed_count i s"
  by (simp add: completed_count_def effects_of_def)

lemma completed_count_onProgress [simp]: "completed_count i (onProgress n s) = completed_count i s"
  by (simp add: completed_count_def effects_of_def onProgress_def)

lemma completed_count_onIncompleteDownload [simp]:
  "completed_count i (onIncompleteDownload im k reason err now s) = completed_count i s"
  by (simp add: completed_count_def effects_of_def onIncompleteDownload_eq)

lemma completed_count_effect_body [simp]:
  "completed_count i (effect_body im p now s) = completed_count i s"
  by (simp add: completed_count_def effects_of_def effect_body_eq)

lemma completed_count_settle:
  "completed_count i (settle im k out now s) = completed_count i s + (if i = k then 1 else 0)"
  by (cases out) (simp_all add: completed_count_def effects_of_def settle_rejected settle_resolved)

lemma effect_body_runs:
  "runs (effect_body im p now s) =
     runs s @
       [\<lparr>run_url = url p, run_logType = logType p, timeStart = now, aborted = False,
         fetching = (url p \<noteq> []), abortController = (url p \<noteq> [] \<and> isProduction im),
         run_downloadSizeLimit =
           (case downloadSizeLimit p of None \<Rightarrow> LOG_FILE_SIZE_LIMIT im | Some l \<Rightarrow> l),
         settled = False\<rparr>]"
  by (simp add: effect_body_eq)

lemma callback_runs [simp]:
  "runs (onProgress n s) = runs s"
  "runs (onIncompleteDownload im k reason err now s) = runs s"
  by (simp_all add: onProgress_def onIncompleteDownload_eq)

lemma settle_runs:
  "runs (settle im k out now s) = (runs s)[k := (runs s ! k)\<lparr>settled := True\<rparr>]"
  by (cases out) (simp_all add: settle_rejected settle_resolved)

lemma settle_last:
  "last (effects (settle im k out now s)) =
     (k, SendEvent (LogDownloaded (now - timeStart (runs s ! k))
            (fileSize s) (run_logType (runs s ! k))))"
  by (cases out) (simp_all add: settle_rejected settle_resolved)

lemma step_counted:
  assumes "\<And>i. counted s i"
  shows "counted (step im s e) i"
proof (cases e)
  case (Effect p now)
  have "completed_count (length (runs s)) s = 0"
    using assms [of "length (runs s)"] by (simp add: counted_def)
  then show ?thesis
    using Effect assms [of i]
    by (auto simp: counted_def effect_body_runs nth_append cleanup_settled)
next
  case Cleanup
  then show ?thesis using assms [of i] by (auto simp: counted_def cleanup_settled)
next
  case (Progress k n)
  then show ?thesis using assms [of i] by (auto simp: counted_def)
next
  case (Incomplete k reason err now)
  then show ?thesis using assms [of i] by (auto simp: counted_def)
next
  case (Settle k out now)
  show ?thesis
  proof (cases "k < length (runs s) \<and> fetching (runs s ! k) \<and> \<not> settled (runs s ! k)")
    case True
    show ?thesis
      using Settle True assms [of i]
      by (auto simp: counted_def completed_count_settle settle_runs nth_list_update)
  next
    case False
    then show ?thesis using Settle assms [of i] by auto
  qed
qed

lemma reachable_counted: "counted (run_events im evs) i"
proof (induction evs arbitrary: i rule: rev_induct)
  case Nil
  show ?case by (simp add: counted_def completed_count_def effects_of_def run_events_Nil initial_def)
next
  case (snoc e evs)
  show ?case unfolding run_events_snoc by (rule step_counted) (rule snoc.IH)
qed

section \<open>A hook that is only given the empty URL\<close>

lemma effect_urls_append: "effect_urls (xs @ ys) = effect_urls xs @ effect_urls ys"
  by (induction xs rule: effect_urls.induct) simp_all

lemma idle_guard:
  "list_all (\<lambda>r. \<not> fetching r) (runs s) \<Longrightarrow> \<not> (i < length (runs s) \<and> fetching (runs s ! i))"
  by (simp add: list_all_length)

lemma step_idle:
  assumes "list_all (\<lambda>r. \<not> fetching r) (runs s)"
    and "case e of Effect p now \<Rightarrow> url p = [] | _ \<Rightarrow> True"
  shows "data (step im s e) = data s \<and> error (step im s e) = error s \<and>
         fileSize (step im s e) = fileSize s \<and> isLoading (step im s e) = isLoading s \<and>
         list_all (\<lambda>r. \<not> fetching r) (runs (step im s e)) \<and>
         (list_all (\<lambda>t. is_breadcrumb (snd t)) (effects s) \<longrightarrow>
            list_all (\<lambda>t. is_breadcrumb (snd t)) (effects (step im s e)))"
proof (cases e)
  case (Effect p now)
  have "list_all (\<lambda>r. \<not> fetching r) (runs (cleanup s))"
    using assms(1) by (cases "runs s" rule: rev_cases) (simp_all add: cleanup_runs)
  then show ?thesis using Effect assms(2) by (simp add: effect_body_eq)
next
  case Cleanup
  have "list_all (\<lambda>r. \<not> fetching r) (runs (cleanup s))"
    using assms(1) by (cases "runs s" rule: rev_cases) (simp_all add: cleanup_runs)
  then show ?thesis using Cleanup by simp
next
  case (Progress i n)
  then show ?thesis using assms(1) idle_guard [OF assms(1), of i] by auto
next
  case (Incomplete i reason err now)
  then show ?thesis using assms(1) idle_guard [OF assms(1), of i] by auto
next
  case (Settle i out now)
  then show ?thesis using assms(1) idle_guard [OF assms(1), of i] by auto
qed

lemma idle_trace:
  assumes "list_all (\<lambda>u. u = []) (effect_urls evs)"
  shows "data (run_events im evs) = None \<and> error (run_events im evs) = None \<and>
         fileSize (run_events im evs) = 0 \<and> \<not> isLoading (run_events im evs) \<and>
         list_all (\<lambda>r. \<not> fetching r) (runs (run_events im evs)) \<and>
         list_all (\<lambda>t. is_breadcrumb (snd t)) (effects (run_events im evs))"
  using assms
proof (induction evs rule: rev_induct)
  case Nil
  show ?case by (simp add: run_events_Nil initial_def)
next
  case (snoc e evs)
  have prev: "list_all (\<lambda>u. u = []) (effect_urls evs)"
    using snoc.prems by (simp add: effect_urls_append)
  have e: "case e of Effect p now \<Rightarrow> url p = [] | _ \<Rightarrow> True"
    using snoc.prems by (cases e) (simp_all add: effect_urls_append)
  note ih = snoc.IH [OF prev]
  from ih have idle: "list_all (\<lambda>r. \<not> fetching r) (runs (run_events im evs))" by simp
  show ?case
    using step_idle [OF idle e, of im] ih by (simp add: run_events_snoc)
qed

lemma breadcrumbs_send_nothing:
  "list_all (\<lambda>t. is_breadcrumb (snd t)) es \<Longrightarrow> sent_names es = []"
proof (induction es)
  case Nil
  show ?case by simp
next
  case (Cons t es)
  obtain i e where t: "t = (i, e)" by (cases t)
  show ?case using Cons t by (cases e) simp_all
qed

section \<open>C1: cancelling the superseded attempt\<close>

text \<open>
  C1, as stated, fails where \<open>isProduction()\<close> is false: the controller is not handed to
  \<open>fetchLogFile\<close>. After the URL changes from \<open>/a\<close> to \<open>/b\<close> the signal of the first
  run is aborted, but the fetch for \<open>/a\<close> does not hold it, and both attempts are in
  flight.
\<close>

theorem development_keeps_superseded_attempt_in_flight:
  "aborted (runs (run_events development [Effect log_a 0, Effect log_b 1]) ! 0) \<and>
   \<not> abortController (runs (run_events development [Effect log_a 0, Effect log_b 1]) ! 0) \<and>
   length (filter in_flight (runs (run_events development [Effect log_a 0, Effect log_b 1]))) = 2"
  by (simp add: run_events_def initial_def effect_body_eq cleanup_runs development_def
      log_a_def log_b_def in_flight_def cancelled_def)

text \<open>
  C1, amended: in production, when the cleanup of the effect has run (on a change of the
  URL, before the new effect body, and on teardown), every run that called
  \<open>fetchLogFile\<close> has been cancelled: its controller was handed to \<open>fetchLogFile\<close> and
  its signal is aborted. So after a change of the URL every earlier attempt is cancelled,
  and at any moment at most one attempt is in flight.
\<close>

theorem production_cancels_superseded_attempts:
  assumes "isProduction im"
  shows "list_all (\<lambda>r. fetching r \<longrightarrow> cancelled r) (runs (cleanup (run_events im evs))) \<and>
         list_all (\<lambda>r. fetching r \<longrightarrow> cancelled r) (butlast (runs (run_events im (evs @ [Effect p now])))) \<and>
         length (filter in_flight (runs (run_events im evs))) \<le> 1"
proof (intro conjI)
  let ?s = "run_events im evs"
  have w: "list_all (wired im) (runs (cleanup ?s))"
    using step_wired [OF reachable_wired, of im evs Cleanup] by simp
  have a: "list_all aborted (runs (cleanup ?s))"
    by (rule cleanup_all_aborted [OF reachable_superseded_aborted])
  show c: "list_all (\<lambda>r. fetching r \<longrightarrow> cancelled r) (runs (cleanup ?s))"
    using w a assms by (auto simp: list_all_iff wired_def cancelled_def)
  show "list_all (\<lambda>r. fetching r \<longrightarrow> cancelled r)
          (butlast (runs (run_events im (evs @ [Effect p now]))))"
    using c by (simp add: run_events_snoc effect_body_eq)
  have "list_all (\<lambda>r. \<not> in_flight r) (butlast (runs ?s))"
    unfolding list_all_iff
  proof
    fix r assume r: "r \<in> set (butlast (runs ?s))"
    then have "aborted r"
      using reachable_superseded_aborted [of im evs] by (simp add: list_all_iff)
    moreover have "wired im r"
      using reachable_wired [of im evs] in_set_butlastD [OF r] by (simp add: list_all_iff)
    ultimately show "\<not> in_flight r"
      using in_flight_not_aborted [OF assms] by blast
  qed
  then show "length (filter in_flight (runs ?s)) \<le> 1"
    by (rule filter_only_last)
qed

theorem production_cancels_superseded_attempts_witness:
  "isProduction production \<and>
   length (filter in_flight (runs (run_events production [Effect log_a 0, Effect log_b 1]))) = 1"
  using production_cancels_superseded_attempts [of production "[Effect log_a 0]" log_b 1]
  by (simp add: run_events_def initial_def effect_body_eq cleanup_runs development_def production_def
      log_a_def log_b_def in_flight_def cancelled_def)

section \<open>C2: the line-length warning\<close>

text \<open>
  C2: when the promise of an attempt is fulfilled with \<open>trimmedLines\<close> not zero, the
  \<open>.then\<close> callback sends the \<open>Log Download Incomplete\<close> event with reason
  \<open>Log line size limit exceeded\<close>, reports an error whose metadata holds \<open>trimmedLines\<close>,
  and shows the line-length toast. Nothing sent before is withdrawn, and nothing that
  happens later removes the three calls. When \<open>onIncompleteDownload\<close> fired for the same
  attempt just before, its three calls and these three all stand, as six separate calls.
\<close>

theorem line_length_warning_emitted:
  assumes "i < length (runs s)" and "fetching (runs s ! i)" and "\<not> settled (runs s ! i)"
    and "trimmedLines \<noteq> 0"
  shows "(\<exists>later.
            effects (foldl (step im) s (Settle i (Resolved logs trimmedLines) now # evs)) =
              effects s @
              [(i, SendEvent (LogDownloadIncomplete (fileSize s) (now - timeStart (runs s ! i))
                     ''Log line size limit exceeded'')),
               (i, ReportErrorWarning (JsError ''Error'' ''Incomplete download'')
                     (Some \<lparr>message = ''Log line size limit exceeded'',
                            metadata = TrimmedLines trimmedLines (run_url (runs s ! i)),
                            name = ''Log download incomplete''\<rparr>)),
               (i, ToastWarning (LOG_LINE_TOO_LARGE_WARNING im) True
                     \<lparr>shouldTimeout = False, title = ''Log not fully downloaded''\<rparr>)] @ later) \<and>
         (\<exists>later.
            effects (foldl (step im) s
                (Incomplete i reason err t # Settle i (Resolved logs trimmedLines) now # evs)) =
              effects s @
              [(i, ReportErrorWarning (JsError ''Error'' ''Incomplete download'')
                     (Some \<lparr>message = reason,
                            metadata = IncompleteDownloadError err (run_url (runs s ! i)),
                            name = ''Log download incomplete''\<rparr>)),
               (i, ToastWarning (LOG_FILE_DOWNLOAD_TOO_LARGE_WARNING im) True
                     \<lparr>shouldTimeout = False, title = ''Log not fully downloaded''\<rparr>),
               (i, SendEvent (LogDownloadIncomplete (fileSize s) (t - timeStart (runs s ! i)) reason)),
               (i, SendEvent (LogDownloadIncomplete (fileSize s) (now - timeStart (runs s ! i))
                     ''Log line size limit exceeded'')),
               (i, ReportErrorWarning (JsError ''Error'' ''Incomplete download'')
                     (Some \<lparr>message = ''Log line size limit exceeded'',
                            metadata = TrimmedLines trimmedLines (run_url (runs s ! i)),
                            name = ''Log download incomplete''\<rparr>)),
               (i, ToastWarning (LOG_LINE_TOO_LARGE_WARNING im) True
                     \<lparr>shouldTimeout = False, title = ''Log not fully downloaded''\<rparr>)] @ later)"
    (is "?line_only \<and> ?both")
proof
  let ?s1 = "step im s (Settle i (Resolved logs trimmedLines) now)"
  obtain l where "effects (foldl (step im) ?s1 evs) = effects ?s1 @ l"
    using effects_steps by blast
  then show ?line_only
    using assms by (simp add: settle_resolved)
next
  let ?s0 = "step im s (Incomplete i reason err t)"
  let ?s1 = "step im ?s0 (Settle i (Resolved logs trimmedLines) now)"
  obtain l where "effects (foldl (step im) ?s1 evs) = effects ?s1 @ l"
    using effects_steps by blast
  then show ?both
    using assms by (simp add: settle_resolved onIncompleteDownload_eq)
qed

theorem line_length_warning_emitted_witness:
  "(0::nat) < length (runs (run_events development [Effect log_a 0, Progress 0 40])) \<and>
   fetching (runs (run_events development [Effect log_a 0, Progress 0 40]) ! 0) \<and>
   \<not> settled (runs (run_events development [Effect log_a 0, Progress 0 40]) ! 0) \<and>
   (2::int) \<noteq> 0 \<and>
   map snd (effects (foldl (step development)
       (run_events development [Effect log_a 0, Progress 0 40])
       [Incomplete 0 ''File size limit exceeded'' network_error 5, Settle 0 (Resolved [''x''] 2) 9])) =
     [LeaveBreadcrumb ''useLogDownloader'' (CrumbUrl ''/a'') SentryBreadcrumb_HTTP,
      ReportErrorWarning (JsError ''Error'' ''Incomplete download'')
        (Some \<lparr>message = ''File size limit exceeded'',
               metadata = IncompleteDownloadError network_error ''/a'',
               name = ''Log download incomplete''\<rparr>),
      ToastWarning ''file too large'' True
        \<lparr>shouldTimeout = False, title = ''Log not fully downloaded''\<rparr>,
      SendEvent (LogDownloadIncomplete 40 5 ''File size limit exceeded''),
      SendEvent (LogDownloadIncomplete 40 9 ''Log line size limit exceeded''),
      ReportErrorWarning (JsError ''Error'' ''Incomplete download'')
        (Some \<lparr>message = ''Log line size limit exceeded'',
               metadata = TrimmedLines 2 ''/a'',
               name = ''Log download incomplete''\<rparr>),
      ToastWarning ''line too large'' True
        \<lparr>shouldTimeout = False, title = ''Log not fully downloaded''\<rparr>,
      LeaveBreadcrumb ''useLogDownloader'' (CrumbDone ''some Bytes'' 9 ''/a'') SentryBreadcrumb_HTTP,
      SendEvent (LogDownloaded 9 40 ())]"
  using line_length_warning_emitted
    [of 0 "run_events development [Effect log_a 0, Progress 0 40]" 2 development "[''x'']" 9 "[]"
        "''File size limit exceeded''" network_error 5]
  by (simp add: run_events_def initial_def effect_body_eq cleanup_runs onProgress_def
      onIncompleteDownload_eq settle_resolved development_def log_a_def)

section \<open>C3: an attempt abandoned by cancellation\<close>

text \<open>
  C3 on a superseded attempt: in production the URL changes from \<open>/a\<close> to \<open>/b\<close> while
  the first attempt is pending; the first attempt is cancelled and its promise is rejected
  with the abort error. The \<open>.catch\<close> callback does not look at the kind of error, so the
  callback of the superseded attempt sets \<open>error\<close> to the abort error's message and sends
  a \<open>Log Download Failed\<close> event while the attempt for \<open>/b\<close> is in flight; the cleanup
  telemetry of the cancelled attempt fires as C3 says. When \<open>/b\<close> is then downloaded in
  full, the hook exposes the lines of \<open>/b\<close> together with the message of the cancellation.
\<close>

theorem superseded_attempt_sets_error:
  "cancelled (runs (run_events production [Effect log_a 0, Effect log_b 1]) ! 0) \<and>
   in_flight (runs (run_events production [Effect log_a 0, Effect log_b 1]) ! 1) \<and>
   error (run_events production [Effect log_a 0, Effect log_b 1]) = None \<and>
   error (run_events production [Effect log_a 0, Effect log_b 1, Settle 0 (Rejected abort_error) 2])
     = Some ''The user aborted a request.'' \<and>
   sent_names (drop 2 (effects
       (run_events production [Effect log_a 0, Effect log_b 1, Settle 0 (Rejected abort_error) 2])))
     = [''Log Download Failed'', ''Log Downloaded''] \<and>
   data (run_events production
       [Effect log_a 0, Effect log_b 1, Settle 0 (Rejected abort_error) 2,
        Settle 1 (Resolved [''line of b''] 0) 5])
     = Some [''line of b''] \<and>
   error (run_events production
       [Effect log_a 0, Effect log_b 1, Settle 0 (Rejected abort_error) 2,
        Settle 1 (Resolved [''line of b''] 0) 5])
     = Some ''The user aborted a request.''"
  by (simp add: run_events_def initial_def effect_body_eq cleanup_runs settle_rejected settle_resolved
      remove_last_empty_eq production_def development_def log_a_def log_b_def abort_error_def
      cancelled_def in_flight_def)

section \<open>C4: the trailing empty line\<close>

text \<open>
  C4: when the promise is fulfilled with \<open>logs\<close>, \<open>data\<close> becomes \<open>logs\<close> without its
  last element if that element is the empty string, and \<open>logs\<close> unchanged otherwise
  (an empty array included). Exactly one element is removed: an array that ends with the
  empty string is \<open>data\<close> followed by that one string.
\<close>

theorem trailing_empty_line_removed:
  assumes "i < length (runs s)" and "fetching (runs s ! i)" and "\<not> settled (runs s ! i)"
  shows "data (step im s (Settle i (Resolved logs trimmedLines) now)) = Some (remove_last_empty logs) \<and>
         (logs \<noteq> [] \<and> last logs = [] \<longrightarrow> logs = remove_last_empty logs @ [[]]) \<and>
         (\<not> (logs \<noteq> [] \<and> last logs = []) \<longrightarrow> remove_last_empty logs = logs) \<and>
         (\<forall>ys. logs = ys @ [[]] \<longrightarrow> remove_last_empty logs = ys)"
proof (intro conjI)
  show "data (step im s (Settle i (Resolved logs trimmedLines) now)) = Some (remove_last_empty logs)"
    using assms by (simp add: settle_resolved)
  show "logs \<noteq> [] \<and> last logs = [] \<longrightarrow> logs = remove_last_empty logs @ [[]]"
    by (cases logs rule: rev_cases) (simp_all add: remove_last_empty_eq)
  show "\<not> (logs \<noteq> [] \<and> last logs = []) \<longrightarrow> remove_last_empty logs = logs"
    by (simp add: remove_last_empty_eq)
  show "\<forall>ys. logs = ys @ [[]] \<longrightarrow> remove_last_empty logs = ys"
    by (simp add: remove_last_empty_eq)
qed

theorem trailing_empty_line_removed_witness:
  "(0::nat) < length (runs (run_events development [Effect log_a 0])) \<and>
   fetching (runs (run_events development [Effect log_a 0]) ! 0) \<and>
   \<not> settled (runs (run_events development [Effect log_a 0]) ! 0) \<and>
   data (run_events development [Effect log_a 0, Settle 0 (Resolved [''a'', ''b'', ''c'', ''''] 0) 4])
     = Some [''a'', ''b'', ''c''] \<and>
   remove_last_empty [''a'', '''', ''''] = [''a'', ''''] \<and>
   remove_last_empty [''a'', ''b''] = [''a'', ''b''] \<and>
   remove_last_empty [] = []"
  using trailing_empty_line_removed
    [of 0 "run_events development [Effect log_a 0]" development "[''a'', ''b'', ''c'', '''']" 0 4]
  by (simp add: run_events_def initial_def effect_body_eq cleanup_runs settle_resolved
      development_def log_a_def remove_last_empty_eq)

section \<open>C5: \<open>isLoading\<close> across attempts\<close>

text \<open>
  For one attempt taken alone the hook does what C5 says: the effect sets \<open>isLoading\<close>
  when it starts the attempt, the settlement of the attempt leaves it false, no callback
  in between touches it, and a settled promise never settles again.
\<close>

lemma isLoading_set_at_start:
  "url p \<noteq> [] \<Longrightarrow> isLoading (step im s (Effect p now))"
  by (simp add: effect_body_eq)

lemma isLoading_cleared_in_cleanup_phase:
  "i < length (runs s) \<Longrightarrow> fetching (runs s ! i) \<Longrightarrow> \<not> settled (runs s ! i) \<Longrightarrow>
   \<not> isLoading (step im s (Settle i out now))"
  by (cases out) (simp_all add: settle_rejected settle_resolved)

lemma isLoading_kept_by_callbacks:
  "isLoading (step im s (Progress i n)) = isLoading s"
  "isLoading (step im s (Incomplete i reason err now)) = isLoading s"
  "isLoading (step im s Cleanup) = isLoading s"
  by (simp_all add: onProgress_def onIncompleteDownload_eq)

lemma settled_for_good:
  "i < length (runs s) \<Longrightarrow> settled (runs s ! i) \<Longrightarrow> step im s (Settle i out now) = s"
  by simp

text \<open>
  C5 on overlapping attempts: in production the URL changes from \<open>/a\<close> to \<open>/b\<close> while
  the first attempt is pending, and the first promise is then rejected. Its \<open>.finally\<close>
  sets \<open>isLoading\<close> to false while the attempt for \<open>/b\<close> is in flight; when that attempt
  settles, \<open>isLoading\<close> is false already and does not change in its cleanup phase.
\<close>

theorem superseded_attempt_clears_isLoading:
  "isLoading (run_events production [Effect log_a 0, Effect log_b 1]) \<and>
   in_flight (runs (run_events production
      [Effect log_a 0, Effect log_b 1, Settle 0 (Rejected abort_error) 2]) ! 1) \<and>
   \<not> isLoading (run_events production
      [Effect log_a 0, Effect log_b 1, Settle 0 (Rejected abort_error) 2]) \<and>
   isLoading (run_events production
      [Effect log_a 0, Effect log_b 1, Settle 0 (Rejected abort_error) 2, Settle 1 (Resolved [] 0) 5])
     = isLoading (run_events production
      [Effect log_a 0, Effect log_b 1, Settle 0 (Rejected abort_error) 2])"
  by (simp add: run_events_def initial_def effect_body_eq cleanup_runs settle_rejected settle_resolved
      production_def development_def log_a_def log_b_def abort_error_def in_flight_def cancelled_def)

section \<open>C6: the final \<open>Log Downloaded\<close> event\<close>

text \<open>
  C6: along every trace, an attempt has sent the \<open>Log Downloaded\<close> event exactly once
  if its promise has settled and not at all before that. Whatever the outcome (fulfilled,
  rejected by a failure or by cancellation), the settlement of a pending attempt adds
  exactly one such event, and it is the last call of the settlement: the \<open>.finally\<close>
  callback runs after \<open>.then\<close> or \<open>.catch\<close>.
\<close>

theorem log_downloaded_once_per_attempt:
  "completed_count i (run_events im evs) =
     (if i < length (runs (run_events im evs)) \<and> settled (runs (run_events im evs) ! i)
      then 1 else 0) \<and>
   (i < length (runs s) \<and> fetching (runs s ! i) \<and> \<not> settled (runs s ! i) \<longrightarrow>
      settled (runs (step im s (Settle i out now)) ! i) \<and>
      completed_count i (step im s (Settle i out now)) = completed_count i s + 1 \<and>
      last (effects (step im s (Settle i out now))) =
        (i, SendEvent (LogDownloaded (now - timeStart (runs s ! i))
               (fileSize s) (run_logType (runs s ! i)))))"
proof
  show "completed_count i (run_events im evs) =
     (if i < length (runs (run_events im evs)) \<and> settled (runs (run_events im evs) ! i)
      then 1 else 0)"
    using reachable_counted [of im evs i] by (simp add: counted_def)
  show "i < length (runs s) \<and> fetching (runs s ! i) \<and> \<not> settled (runs s ! i) \<longrightarrow>
      settled (runs (step im s (Settle i out now)) ! i) \<and>
      completed_count i (step im s (Settle i out now)) = completed_count i s + 1 \<and>
      last (effects (step im s (Settle i out now))) =
        (i, SendEvent (LogDownloaded (now - timeStart (runs s ! i))
               (fileSize s) (run_logType (runs s ! i))))"
    by (simp add: completed_count_settle settle_runs settle_last)
qed

theorem log_downloaded_once_per_attempt_witness:
  "completed_count 0 (run_events production
      [Effect log_a 0, Effect log_b 1, Settle 0 (Rejected abort_error) 2,
       Settle 1 (Resolved [''x''] 0) 6, Settle 0 (Resolved [] 0) 7, Cleanup]) = 1 \<and>
   (0::nat) < length (runs (run_events production [Effect log_a 0, Progress 0 3])) \<and>
   fetching (runs (run_events production [Effect log_a 0, Progress 0 3]) ! 0) \<and>
   \<not> settled (runs (run_events production [Effect log_a 0, Progress 0 3]) ! 0) \<and>
   completed_count 0 (run_events production [Effect log_a 0, Progress 0 3]) = 0 \<and>
   completed_count 0
     (run_events production [Effect log_a 0, Progress 0 3, Settle 0 (Rejected network_error) 4]) = 1 \<and>
   last (effects
     (run_events production [Effect log_a 0, Progress 0 3, Settle 0 (Rejected network_error) 4])) =
     (0, SendEvent (LogDownloaded 4 3 ()))"
  using log_downloaded_once_per_attempt [of 0 production
      "[Effect log_a 0, Effect log_b 1, Settle 0 (Rejected abort_error) 2,
        Settle 1 (Resolved [''x''] 0) 6, Settle 0 (Resolved [] 0) 7, Cleanup]"
      "run_events production [Effect log_a 0, Progress 0 3]" "Rejected network_error" 4]
  by (simp add: run_events_def initial_def effect_body_eq cleanup_runs settle_rejected settle_resolved
      onProgress_def completed_count_def effects_of_def production_def development_def
      log_a_def log_b_def abort_error_def network_error_def)

section \<open>C7: a transport failure\<close>

text \<open>
  C7: when the promise of an attempt is rejected with \<open>err\<close>, \<open>error\<close> becomes
  \<open>err.message\<close>, \<open>data\<close> is left as it was, and the third call of the settlement is
  \<open>sendEvent\<close> with the \<open>Log Download Failed\<close> event, whose name differs from those of
  the incomplete-download and the completed events. The analytics events of the
  settlement are that one and the final \<open>Log Downloaded\<close>.
\<close>

theorem transport_failure_sets_error:
  assumes "i < length (runs s)" and "fetching (runs s ! i)" and "\<not> settled (runs s ! i)"
  shows "error (step im s (Settle i (Rejected err) now)) = Some (err_message err) \<and>
         data (step im s (Settle i (Rejected err) now)) = data s \<and>
         effects (step im s (Settle i (Rejected err) now)) ! (length (effects s) + 2)
           = (i, SendEvent (LogDownloadFailed (now - timeStart (runs s ! i)) (fileSize s)
                  (run_logType (runs s ! i)))) \<and>
         event_name (LogDownloadFailed (now - timeStart (runs s ! i)) (fileSize s)
             (run_logType (runs s ! i)))
           \<notin> {''Log Download Incomplete'', ''Log Downloaded''} \<and>
         sent_names (drop (length (effects s)) (effects (step im s (Settle i (Rejected err) now))))
           = [''Log Download Failed'', ''Log Downloaded'']"
  using assms by (simp add: settle_rejected nth_append)

theorem transport_failure_sets_error_witness:
  "(0::nat) < length (runs (run_events development [Effect log_a 0, Progress 0 7])) \<and>
   fetching (runs (run_events development [Effect log_a 0, Progress 0 7]) ! 0) \<and>
   \<not> settled (runs (run_events development [Effect log_a 0, Progress 0 7]) ! 0) \<and>
   error (run_events development [Effect log_a 0, Progress 0 7, Settle 0 (Rejected network_error) 3])
     = Some ''Failed to fetch'' \<and>
   data (run_events development [Effect log_a 0, Progress 0 7, Settle 0 (Rejected network_error) 3])
     = None \<and>
   map snd (effects
      (run_events development [Effect log_a 0, Progress 0 7, Settle 0 (Rejected network_error) 3]))
     = [LeaveBreadcrumb ''useLogDownloader'' (CrumbUrl ''/a'') SentryBreadcrumb_HTTP,
        LeaveBreadcrumb ''useLogDownloader'' (CrumbError 3 network_error 7 ''/a'')
          SentryBreadcrumb_Error,
        ReportErrorWarning network_error None,
        SendEvent (LogDownloadFailed 3 7 ()),
        LeaveBreadcrumb ''useLogDownloader'' (CrumbDone ''some Bytes'' 3 ''/a'')
          SentryBreadcrumb_HTTP,
        SendEvent (LogDownloaded 3 7 ())]"
  using transport_failure_sets_error
    [of 0 "run_events development [Effect log_a 0, Progress 0 7]" development network_error 3]
  by (simp add: run_events_def initial_def effect_body_eq cleanup_runs settle_rejected onProgress_def
      development_def log_a_def network_error_def)

section \<open>C8: \<open>fileSize\<close> across attempts\<close>

text \<open>
  Within an attempt \<open>fileSize\<close> grows by each byte count handed to \<open>onProgress\<close>, and
  with counts that are not negative it never decreases. No other step writes the cell,
  the start of a new attempt included.
\<close>

lemma fileSize_after_progress:
  assumes "i < length (runs s)" and "fetching (runs s ! i)"
  shows "fileSize (foldl (step im) s (map (Progress i) ns)) = fileSize s + sum_list ns \<and>
         runs (foldl (step im) s (map (Progress i) ns)) = runs s"
  using assms
proof (induction ns arbitrary: s)
  case Nil
  show ?case by simp
next
  case (Cons n ns)
  have "runs (step im s (Progress i n)) = runs s" by simp
  then show ?case using Cons.IH [of "step im s (Progress i n)"] Cons.prems
    by (simp add: onProgress_def)
qed

lemma fileSize_never_decreases:
  assumes "i < length (runs s)" and "fetching (runs s ! i)" and "list_all (\<lambda>n. 0 \<le> n) ns"
  shows "fileSize s \<le> fileSize (foldl (step im) s (map (Progress i) ns))"
proof -
  have "0 \<le> sum_list ns"
    using assms(3) by (simp add: list_all_iff sum_list_nonneg)
  then show ?thesis using fileSize_after_progress [OF assms(1,2), of im ns] by simp
qed

lemma fileSize_reset_nowhere:
  "fileSize (step im s (Effect p now)) = fileSize s"
  "fileSize (step im s Cleanup) = fileSize s"
  "fileSize (step im s (Settle i out now)) = fileSize s"
  "fileSize (step im s (Incomplete i reason err now)) = fileSize s"
  by (simp_all add: effect_body_eq onIncompleteDownload_eq, cases out,
      simp_all add: settle_rejected settle_resolved)

text \<open>
  C8 on a second attempt: after 10 bytes for \<open>/a\<close> the URL changes to \<open>/b\<close>; the new
  attempt starts from 10, and its first 5 bytes make \<open>fileSize\<close> 15, not 5.
\<close>

theorem fileSize_carried_into_next_attempt:
  "fileSize (run_events production
      [Effect log_a 0, Progress 0 10, Settle 0 (Resolved [''x''] 0) 3]) = 10 \<and>
   fileSize (run_events production
      [Effect log_a 0, Progress 0 10, Settle 0 (Resolved [''x''] 0) 3, Effect log_b 4]) = 10 \<and>
   fileSize (run_events production
      [Effect log_a 0, Progress 0 10, Settle 0 (Resolved [''x''] 0) 3, Effect log_b 4,
       Progress 1 5]) = 15"
  by (simp add: run_events_def initial_def effect_body_eq cleanup_runs settle_resolved onProgress_def
      production_def development_def log_a_def log_b_def)

section \<open>C9: the empty URL\<close>

text \<open>
  C9: along every trace in which the effect only ever runs with the empty URL,
  \<open>fetchLogFile\<close> is never called (no run fetches, so no callback and no settlement
  changes anything), \<open>isLoading\<close> stays false, \<open>data\<close> and \<open>error\<close> stay undefined,
  \<open>fileSize\<close> stays 0, and the only calls made are the breadcrumbs at the top of the
  effect: no toast, no error report and no analytics event. From any state, a run of
  the effect with the empty URL leaves the four cells as they are, starts no fetch and
  makes the one \<open>leaveBreadcrumb\<close> call.
\<close>

theorem empty_url_issues_no_fetch:
  assumes "list_all (\<lambda>u. u = []) (effect_urls evs)" and "url p = []"
  shows "(data (run_events im evs) = None \<and> error (run_events im evs) = None \<and>
          fileSize (run_events im evs) = 0 \<and> \<not> isLoading (run_events im evs) \<and>
          list_all (\<lambda>r. \<not> fetching r) (runs (run_events im evs)) \<and>
          list_all (\<lambda>t. is_breadcrumb (snd t)) (effects (run_events im evs)) \<and>
          sent_names (effects (run_events im evs)) = []) \<and>
         (data (step im s (Effect p now)) = data s \<and>
          error (step im s (Effect p now)) = error s \<and>
          fileSize (step im s (Effect p now)) = fileSize s \<and>
          isLoading (step im s (Effect p now)) = isLoading s \<and>
          \<not> fetching (last (runs (step im s (Effect p now)))) \<and>
          effects (step im s (Effect p now)) =
            effects s @ [(length (runs s), LeaveBreadcrumb ''useLogDownloader'' (CrumbUrl [])
                            SentryBreadcrumb_HTTP)])"
    (is "?only_empty \<and> ?any_state")
proof
  show ?only_empty
    using idle_trace [OF assms(1), of im] breadcrumbs_send_nothing by blast
  show ?any_state
    using assms(2) by (simp add: effect_body_eq)
qed

theorem empty_url_issues_no_fetch_witness:
  "list_all (\<lambda>u. u = [])
     (effect_urls [Effect no_log 0, Progress 0 5, Settle 0 (Resolved [''x''] 1) 2, Cleanup]) \<and>
   url no_log = [] \<and>
   run_events development [Effect no_log 0, Progress 0 5, Settle 0 (Resolved [''x''] 1) 2, Cleanup] =
     \<lparr>data = None, error = None, fileSize = 0, isLoading = False,
      runs = [\<lparr>run_url = [], run_logType = (), timeStart = 0, aborted = True, fetching = False,
               abortController = False, run_downloadSizeLimit = 1000, settled = False\<rparr>],
      effects = [(0, LeaveBreadcrumb ''useLogDownloader'' (CrumbUrl []) SentryBreadcrumb_HTTP)]\<rparr> \<and>
   data (run_events development [Effect log_a 0, Settle 0 (Resolved [''x''] 0) 2, Effect no_log 3])
     = Some [''x''] \<and>
   \<not> isLoading
     (run_events development [Effect log_a 0, Settle 0 (Resolved [''x''] 0) 2, Effect no_log 3])"
  using empty_url_issues_no_fetch
    [of "[Effect no_log 0, Progress 0 5, Settle 0 (Resolved [''x''] 1) 2, Cleanup]" no_log
        development "run_events development [Effect log_a 0, Settle 0 (Resolved [''x''] 0) 2]" 3]
  by (simp add: run_events_def initial_def effect_body_eq cleanup_runs settle_resolved
      remove_last_empty_eq development_def no_log_def log_a_def)

section \<open>C10: \<open>initializeSentry\<close> returns\<close>

text \<open>
  C10: whatever \<open>init\<close> and the readers of the environment do, \<open>initializeSentry\<close>
  returns normally. When something in the \<open>try\<close> block throws \<open>e\<close>, the console gets
  the one entry \<open>("Failed to initialize Sentry", e)\<close>, and nothing otherwise; in
  particular when the arguments are read without trouble and \<open>init\<close> itself throws.
\<close>

theorem initializeSentry_returns:
  "fst (initializeSentry d) = Inr () \<and>
   snd (initializeSentry d) =
     (case try_block d of Inl e \<Rightarrow> [(''Failed to initialize Sentry'', e)] | Inr u \<Rightarrow> []) \<and>
   (\<forall>e. sentry_isProduction d = Inr production_mode \<and> getSentryDSN d = Inr sentryDSN \<and>
        getReleaseStage d = Inr stage \<and>
        init d \<lparr>debug = \<not> production_mode, dsn = sentryDSN, environment = or_development stage,
                normalizeDepth = 5\<rparr> = Inl e \<longrightarrow>
        initializeSentry d = (Inr (), [(''Failed to initialize Sentry'', e)]))"
  by (auto simp: initializeSentry_def console_error_def try_block_def and_then_def split: sum.splits)

theorem initializeSentry_returns_witness:
  "init sentry_init_throws
     \<lparr>debug = False, dsn = ''https://dsn'', environment = ''development'', normalizeDepth = 5\<rparr>
     = Inl ''invalid dsn'' \<and>
   initializeSentry sentry_init_throws = (Inr (), [(''Failed to initialize Sentry'', ''invalid dsn'')])"
  using initializeSentry_returns [of sentry_init_throws True "''https://dsn''" None]
  by (simp add: sentry_init_throws_def or_development_def)

end
